theory Spec2Isabelle
  imports Main
begin

section \<open>Faults, events and the external collaborators\<close>

text \<open>
  A rejected promise or a thrown \<open>Error\<close> is the value \<open>Inl (Fault msg)\<close>, where \<open>msg\<close>
  is the error's \<open>message\<close>. Every function of the source that can throw returns a sum
  \<open>fault + 'a\<close>, together with the list of calls it made to the outside world, in the
  order it made them.
\<close>

datatype fault = Fault string

fun error_message :: "fault \<Rightarrow> string" where
  "error_message (Fault m) = m"

datatype event =
    RefreshAccessToken
  | ConsoleError string
  | LoadSavedCredentials
  | ConsentFlow
  | SaveCredentials
  | MessagesSend string
  | MessagesList string int
  | MessagesGet string
  | MessagesModify string

section \<open>AuthManager\<close>

text \<open>
  The fields of \<open>OAuth2Client.credentials\<close> that the source reads. \<open>expiry_date\<close> is a
  number of milliseconds, or absent (\<open>undefined\<close> and \<open>null\<close> are both \<open>None\<close>).
\<close>

record credentials =
  access_token :: "string option"
  refresh_token :: "string option"
  expiry_date :: "int option"

text \<open>
  The token endpoint and the clock: \<open>Date.now()\<close> and the outcome of
  \<open>OAuth2Client.refreshAccessToken()\<close> on the stored credentials.
\<close>

record token_env =
  now :: int
  refreshAccessToken :: "credentials \<Rightarrow> fault + credentials"

text \<open>
  JavaScript truthiness of \<open>credentials.expiry_date\<close>: absent and \<open>0\<close> are falsy.
\<close>

fun truthy_num :: "int option \<Rightarrow> bool" where
  "truthy_num None = False"
| "truthy_num (Some n) = (n \<noteq> 0)"

text \<open>
  \<^verbatim>\<open>
  async refreshTokenIfNeeded(): Promise<void> {
    if (this.auth?.credentials.expiry_date &&
        Date.now() >= this.auth.credentials.expiry_date) {
      try {
        const { credentials } = await this.auth.refreshAccessToken();
        this.auth.setCredentials(credentials);
      } catch (error) {
        console.error('Token refresh failed, need re-authentication');
        throw error;
      }
    }
  }
  \<close>
  The result is the outcome (\<open>Inl\<close> the rethrown error), the credentials the client
  holds afterwards, and the calls made.
\<close>

definition refreshTokenIfNeeded ::
  "token_env \<Rightarrow> credentials \<Rightarrow> (fault + unit) \<times> credentials \<times> event list" where
  "refreshTokenIfNeeded env creds =
     (if truthy_num (expiry_date creds) \<and> now env \<ge> the (expiry_date creds) then
        (case refreshAccessToken env creds of
           Inr new_creds \<Rightarrow> (Inr (), new_creds, [RefreshAccessToken])
         | Inl error \<Rightarrow>
             (Inl error, creds,
              [RefreshAccessToken, ConsoleError ''Token refresh failed, need re-authentication'']))
      else (Inr (), creds, []))"

definition outcome :: "'r \<times> credentials \<times> event list \<Rightarrow> 'r" where
  "outcome r = fst r"

definition stored :: "'r \<times> credentials \<times> event list \<Rightarrow> credentials" where
  "stored r = fst (snd r)"

definition calls :: "'r \<times> credentials \<times> event list \<Rightarrow> event list" where
  "calls r = snd (snd r)"

text \<open>Example environments and credentials.\<close>

definition creds_expiring_at :: "int \<Rightarrow> credentials" where
  "creds_expiring_at t =
     \<lparr>access_token = Some ''old'', refresh_token = Some ''r1'', expiry_date = Some t\<rparr>"

definition creds_no_expiry :: credentials where
  "creds_no_expiry = \<lparr>access_token = None, refresh_token = Some ''r1'', expiry_date = None\<rparr>"

definition env_ok :: "int \<Rightarrow> token_env" where
  "env_ok t =
     \<lparr>now = t,
      refreshAccessToken = (\<lambda>c. Inr (c\<lparr>access_token := Some ''new'', expiry_date := Some (t + 3600000)\<rparr>))\<rparr>"

definition env_invalid_grant :: "int \<Rightarrow> token_env" where
  "env_invalid_grant t = \<lparr>now = t, refreshAccessToken = (\<lambda>c. Inl (Fault ''invalid_grant''))\<rparr>"

section \<open>Strings\<close>

text \<open>
  A JavaScript string is modelled by the bytes of its UTF-8 encoding, which is what
  \<open>Buffer.from(email)\<close> hands to the base64url encoder; concatenation and
  \<open>Array.prototype.join\<close> commute with that encoding.
\<close>

definition CR :: char where
  "CR = CHR 0x0D"

definition LF :: char where
  "LF = CHR 0x0A"

definition crlf :: string where
  "crlf = [CR, LF]"

text \<open>\<open>parts.join(sep)\<close>.\<close>

fun join :: "string \<Rightarrow> string list \<Rightarrow> string" where
  "join sep [] = []"
| "join sep [x] = x"
| "join sep (x # y # ys) = x @ sep @ join sep (y # ys)"

text \<open>
  \<open>String.prototype.toLowerCase\<close> is a builtin of the language: the functions that call
  it take it as their first argument \<open>toLowerCase\<close>, and what is proved of them holds for
  every such function. The examples use the folding of the ASCII letters: \<open>A\<close> to \<open>Z\<close>
  (65 to 90) move to \<open>a\<close> to \<open>z\<close>, every other byte stays.
\<close>

definition lower_char :: "char \<Rightarrow> char" where
  "lower_char c =
     (let n = (of_char c :: nat) in if 65 \<le> n \<and> n \<le> 90 then char_of (n + 32) else c)"

definition ascii_lower :: "string \<Rightarrow> string" where
  "ascii_lower s = map lower_char s"

text \<open>
  The decimal digits of a number, as a template literal prints \<open>Date.now()\<close>.
\<close>

definition digit_char :: "nat \<Rightarrow> char" where
  "digit_char d = ''0123456789'' ! d"

fun string_of_nat :: "nat \<Rightarrow> string" where
  "string_of_nat n =
     (if n < 10 then [digit_char n]
      else string_of_nat (n div 10) @ [digit_char (n mod 10)])"

declare string_of_nat.simps [simp del]

definition string_of_int :: "int \<Rightarrow> string" where
  "string_of_int i =
     (if i < 0 then CHR ''-'' # string_of_nat (nat (- i)) else string_of_nat (nat i))"

subsection \<open>base64url\<close>

text \<open>
  \<open>Buffer.from(email).toString('base64url')\<close>: three bytes become four sextets, a
  remainder of two bytes three sextets and of one byte two; each sextet is written with
  the URL-safe alphabet, and no padding is added.
\<close>

definition base64url_alphabet :: string where
  "base64url_alphabet = ''ABCDEFGHIJKLMNOPQRSTUVWXYZabcdefghijklmnopqrstuvwxyz0123456789-_''"

definition sextet_char :: "nat \<Rightarrow> char" where
  "sextet_char n = base64url_alphabet ! n"

fun sextets_of_bytes :: "nat list \<Rightarrow> nat list" where
  "sextets_of_bytes (a # b # c # rest) =
     a div 4 # (a mod 4 * 16 + b div 16) # (b mod 16 * 4 + c div 64) # c mod 64
       # sextets_of_bytes rest"
| "sextets_of_bytes [a, b] = [a div 4, a mod 4 * 16 + b div 16, b mod 16 * 4]"
| "sextets_of_bytes [a] = [a div 4, a mod 4 * 16]"
| "sextets_of_bytes [] = []"

definition base64url :: "string \<Rightarrow> string" where
  "base64url s = map sextet_char (sextets_of_bytes (map of_char s))"

text \<open>
  The decoder the receiving side applies to \<open>raw\<close>; it is the reference against which
  the composed messages are read back.
\<close>

fun index_of :: "'a \<Rightarrow> 'a list \<Rightarrow> nat option" where
  "index_of x [] = None"
| "index_of x (y # ys) = (if x = y then Some 0 else map_option Suc (index_of x ys))"

fun sextets_of_chars :: "string \<Rightarrow> nat list option" where
  "sextets_of_chars [] = Some []"
| "sextets_of_chars (c # cs) =
     (case index_of c base64url_alphabet of
        None \<Rightarrow> None
      | Some n \<Rightarrow> map_option ((#) n) (sextets_of_chars cs))"

fun bytes_of_sextets :: "nat list \<Rightarrow> nat list option" where
  "bytes_of_sextets (w # x # y # z # rest) =
     map_option (\<lambda>bs. (w * 4 + x div 16) # (x mod 16 * 16 + y div 4) # (y mod 4 * 64 + z) # bs)
       (bytes_of_sextets rest)"
| "bytes_of_sextets [w, x, y] = Some [w * 4 + x div 16, x mod 16 * 16 + y div 4]"
| "bytes_of_sextets [w, x] = Some [w * 4 + x div 16]"
| "bytes_of_sextets [w] = None"
| "bytes_of_sextets [] = Some []"

definition base64url_decode :: "string \<Rightarrow> string option" where
  "base64url_decode s =
     (case sextets_of_chars s of
        None \<Rightarrow> None
      | Some ns \<Rightarrow> map_option (map char_of) (bytes_of_sextets ns))"

subsection \<open>Reading a message back\<close>

text \<open>
  How a recipient reads an RFC 2822 message: lines end at CR LF, the header block is
  every line before the first empty line, the body is everything after that line.
\<close>

fun has_crlf :: "string \<Rightarrow> bool" where
  "has_crlf (a # b # cs) = ((a = CR \<and> b = LF) \<or> has_crlf (b # cs))"
| "has_crlf [a] = False"
| "has_crlf [] = False"

fun split_crlf :: "string \<Rightarrow> string list" where
  "split_crlf (a # b # cs) =
     (if a = CR \<and> b = LF then [] # split_crlf cs
      else (case split_crlf (b # cs) of
              l # ls \<Rightarrow> (a # l) # ls
            | [] \<Rightarrow> [[a]]))"
| "split_crlf [a] = [[a]]"
| "split_crlf [] = [[]]"

definition header_lines :: "string \<Rightarrow> string list" where
  "header_lines s = takeWhile (\<lambda>l. l \<noteq> []) (split_crlf s)"

definition body_lines :: "string \<Rightarrow> string list" where
  "body_lines s = drop 1 (dropWhile (\<lambda>l. l \<noteq> []) (split_crlf s))"

definition body_text :: "string \<Rightarrow> string" where
  "body_text s = join crlf (body_lines s)"

text \<open>
  How a recipient reads a multipart body with boundary \<open>b\<close> (RFC 2046, 5.1.1): a
  delimiter line is \<open>--b\<close> followed by nothing but transport padding (spaces and
  tabs), a closing line is \<open>--b--\<close> followed by nothing but transport padding. The
  lines before the first delimiter line are the preamble, every further delimiter line
  starts the next part, and the closing line ends the last part. A body with no delimiter
  or no closing line has no parts (\<open>None\<close>).
\<close>

definition starts_with :: "string \<Rightarrow> string \<Rightarrow> bool" where
  "starts_with p l = (take (length p) l = p)"

definition padding :: "string \<Rightarrow> bool" where
  "padding s = list_all (\<lambda>c. c = CHR '' '' \<or> c = CHR 0x09) s"

definition is_delimiter :: "string \<Rightarrow> string \<Rightarrow> bool" where
  "is_delimiter b l =
     (starts_with (''--'' @ b) l \<and> padding (drop (length (''--'' @ b)) l))"

definition is_close_delimiter :: "string \<Rightarrow> string \<Rightarrow> bool" where
  "is_close_delimiter b l =
     (starts_with (''--'' @ b @ ''--'') l \<and> padding (drop (length (''--'' @ b @ ''--'')) l))"

fun collect_parts :: "string \<Rightarrow> string list \<Rightarrow> string list \<Rightarrow> string list list option" where
  "collect_parts b part [] = None"
| "collect_parts b part (l # ls) =
     (if is_close_delimiter b l then Some [part]
      else if is_delimiter b l then map_option ((#) part) (collect_parts b [] ls)
      else collect_parts b (part @ [l]) ls)"

definition mime_parts :: "string \<Rightarrow> string list \<Rightarrow> string list list option" where
  "mime_parts b ls =
     (case dropWhile (\<lambda>l. \<not> is_delimiter b l) ls of
        [] \<Rightarrow> None
      | d # rest \<Rightarrow> collect_parts b [] rest)"

section \<open>GmailClient\<close>

text \<open>
  The shapes of the mail API's answers that the client reads. The message is typed
  \<open>any\<close>: the \<open>payload\<close>, its \<open>headers\<close> list, and the \<open>name\<close> and the \<open>value\<close> of
  a header may each be absent (\<open>undefined\<close> or \<open>null\<close>, both \<open>None\<close>).
\<close>

record gmail_header =
  header_name :: "string option"
  header_value :: "string option"

record gmail_payload =
  headers :: "gmail_header list option"

record gmail_message_data =
  data_id :: string
  data_threadId :: string
  snippet :: string
  payload :: "gmail_payload option"

record message_ref =
  ref_id :: string
  ref_threadId :: string

record list_response =
  list_messages :: "message_ref list option"
  list_resultSizeEstimate :: "int option"
  list_nextPageToken :: "string option"

record email_message =
  em_id :: string
  em_threadId :: string
  em_snippet :: string
  em_subject :: string
  em_from :: string
  em_date :: string

record search_emails_result =
  sr_messages :: "email_message list"
  sr_resultSizeEstimate :: "int option"
  sr_nextPageToken :: "string option"

text \<open>
  \<open>this.gmail.users.messages\<close>: the outcome of each call of the mail API, a fault when
  the promise rejects. \<open>messages_send raw\<close> answers \<open>res.data.id\<close>.
\<close>

record gmail_api =
  messages_send :: "string \<Rightarrow> fault + string"
  messages_list :: "string \<Rightarrow> int \<Rightarrow> fault + list_response"
  messages_get :: "string \<Rightarrow> fault + gmail_message_data"
  messages_modify :: "string \<Rightarrow> string list option \<Rightarrow> string list option \<Rightarrow> fault + unit"

text \<open>The fields of a \<open>GmailClient\<close> object.\<close>

record gmail_client =
  gmail :: gmail_api
  auth :: credentials
  accountEmail :: string

text \<open>\<open>cc?.length\<close> as a condition: the list is present and not empty.\<close>

fun truthy_length :: "string list option \<Rightarrow> bool" where
  "truthy_length None = False"
| "truthy_length (Some xs) = (xs \<noteq> [])"

text \<open>
  \<^verbatim>\<open>
  const messageParts = [
    `To: ${to.join(', ')}`,
    `Subject: ${subject}`,
  ];
  if (cc?.length) messageParts.push(`Cc: ${cc.join(', ')}`);
  if (bcc?.length) messageParts.push(`Bcc: ${bcc.join(', ')}`);
  messageParts.push('Content-Type: text/plain; charset=utf-8', '', body);
  const email = messageParts.join('\r\n');
  \<close>
\<close>

definition messageParts ::
  "string list \<Rightarrow> string \<Rightarrow> string \<Rightarrow> string list option \<Rightarrow> string list option \<Rightarrow> string list" where
  "messageParts to subject body cc bcc =
     [''To: '' @ join '', '' to, ''Subject: '' @ subject]
     @ (if truthy_length cc then [''Cc: '' @ join '', '' (the cc)] else [])
     @ (if truthy_length bcc then [''Bcc: '' @ join '', '' (the bcc)] else [])
     @ [''Content-Type: text/plain; charset=utf-8'', [], body]"

definition email ::
  "string list \<Rightarrow> string \<Rightarrow> string \<Rightarrow> string list option \<Rightarrow> string list option \<Rightarrow> string" where
  "email to subject body cc bcc = join crlf (messageParts to subject body cc bcc)"

text \<open>
  \<open>sendEmail\<close>: the message is composed and encoded, and submitted in one call of
  \<open>messages.send\<close>; the result is the id of the answer, or the fault of the call.
\<close>

definition sendEmail ::
  "gmail_client \<Rightarrow> string list \<Rightarrow> string \<Rightarrow> string \<Rightarrow> string list option \<Rightarrow> string list option
    \<Rightarrow> (fault + string) \<times> event list" where
  "sendEmail this to subject body cc bcc =
     (let encodedEmail = base64url (email to subject body cc bcc)
      in (messages_send (gmail this) encodedEmail, [MessagesSend encodedEmail]))"

definition getMessage :: "gmail_client \<Rightarrow> string \<Rightarrow> (fault + gmail_message_data) \<times> event list" where
  "getMessage this messageId = (messages_get (gmail this) messageId, [MessagesGet messageId])"

text \<open>
  \<^verbatim>\<open>
  private extractHeader(message: any, headerName: string): string {
    const header = message.payload?.headers?.find(
      (h: any) => h.name.toLowerCase() === headerName.toLowerCase()
    );
    return header?.value || '';
  }
  \<close>
\<close>

text \<open>
  \<open>Array.prototype.find\<close> with the callback of \<open>extractHeader\<close>: the headers are
  tested from the first on, and \<open>h.name.toLowerCase()\<close> on a header without a name
  throws a \<open>TypeError\<close>, which ends the search.
\<close>

definition name_type_error :: fault where
  "name_type_error = Fault ''Cannot read properties of undefined (reading 'toLowerCase')''"

fun find_header ::
  "(string \<Rightarrow> string) \<Rightarrow> string \<Rightarrow> gmail_header list \<Rightarrow> fault + gmail_header option" where
  "find_header toLowerCase headerName [] = Inr None"
| "find_header toLowerCase headerName (h # hs) =
     (case header_name h of
        None \<Rightarrow> Inl name_type_error
      | Some n \<Rightarrow>
          if toLowerCase n = toLowerCase headerName then Inr (Some h)
          else find_header toLowerCase headerName hs)"

fun or_empty :: "string option \<Rightarrow> string" where
  "or_empty None = []"
| "or_empty (Some v) = (if v = [] then [] else v)"

definition extractHeader ::
  "(string \<Rightarrow> string) \<Rightarrow> gmail_message_data \<Rightarrow> string \<Rightarrow> fault + string" where
  "extractHeader toLowerCase message headerName =
     (case payload message of
        None \<Rightarrow> Inr []
      | Some p \<Rightarrow>
          (case headers p of
             None \<Rightarrow> Inr []
           | Some hs \<Rightarrow>
               (case find_header toLowerCase headerName hs of
                  Inl e \<Rightarrow> Inl e
                | Inr None \<Rightarrow> Inr []
                | Inr (Some header) \<Rightarrow> Inr (or_empty (header_value header)))))"

text \<open>
  \<open>Promise.all\<close> over the detail fetches. The fetches settle in some order, given as the
  list \<open>order\<close> of their indices; each fulfilled value is stored at the index of its
  promise, and the first rejection in that order rejects the whole. When every promise has
  been fulfilled the values are returned in index order; if \<open>order\<close> leaves a promise
  unsettled, \<open>Promise.all\<close> never settles (\<open>None\<close>).
\<close>

fun settle :: "(fault + 'a) list \<Rightarrow> nat list \<Rightarrow> 'a option list \<Rightarrow> fault + 'a option list" where
  "settle outs [] slots = Inr slots"
| "settle outs (i # order) slots =
     (if i < length outs then
        (case outs ! i of
           Inl e \<Rightarrow> Inl e
         | Inr v \<Rightarrow> settle outs order (slots[i := Some v]))
      else settle outs order slots)"

definition promise_all :: "(fault + 'a) list \<Rightarrow> nat list \<Rightarrow> (fault + 'a list) option" where
  "promise_all outs order =
     (case settle outs order (replicate (length outs) None) of
        Inl e \<Rightarrow> Some (Inl e)
      | Inr slots \<Rightarrow> if list_all (\<lambda>s. s \<noteq> None) slots then Some (Inr (map the slots)) else None)"

text \<open>
  \<^verbatim>\<open>
  async searchEmails(query: string, maxResults: number = 10): Promise<any> {
    const res = await this.gmail!.users.messages.list({ userId: 'me', q: query, maxResults });
    const messages = await Promise.all(
      (res.data.messages || []).map(async (msg) => {
        const details = await this.getMessage(msg.id!);
        return { id: msg.id, threadId: msg.threadId, snippet: details.snippet,
                 subject: this.extractHeader(details, 'Subject'),
                 from: this.extractHeader(details, 'From'),
                 date: this.extractHeader(details, 'Date') };
      })
    );
    return { messages, resultSizeEstimate: res.data.resultSizeEstimate,
             nextPageToken: res.data.nextPageToken };
  }
  \<close>
  Every callback of \<open>map\<close> runs up to its \<open>await\<close> when it is called, so the
  \<open>messages.get\<close> calls are issued in list order; their answers arrive in \<open>order\<close>.
\<close>

text \<open>
  The object a callback returns; its fields are evaluated in the order written, so the
  first \<open>extractHeader\<close> that throws rejects the callback.
\<close>

definition shape ::
  "(string \<Rightarrow> string) \<Rightarrow> message_ref \<Rightarrow> gmail_message_data \<Rightarrow> fault + email_message" where
  "shape toLowerCase msg details =
     (case extractHeader toLowerCase details ''Subject'' of
        Inl e \<Rightarrow> Inl e
      | Inr subject \<Rightarrow>
          (case extractHeader toLowerCase details ''From'' of
             Inl e \<Rightarrow> Inl e
           | Inr sender \<Rightarrow>
               (case extractHeader toLowerCase details ''Date'' of
                  Inl e \<Rightarrow> Inl e
                | Inr date \<Rightarrow>
                    Inr \<lparr>em_id = ref_id msg, em_threadId = ref_threadId msg,
                         em_snippet = snippet details, em_subject = subject,
                         em_from = sender, em_date = date\<rparr>)))"

definition fetch ::
  "(string \<Rightarrow> string) \<Rightarrow> gmail_client \<Rightarrow> message_ref \<Rightarrow> fault + email_message" where
  "fetch toLowerCase this msg =
     (case fst (getMessage this (ref_id msg)) of
        Inl e \<Rightarrow> Inl e
      | Inr details \<Rightarrow> shape toLowerCase msg details)"

fun or_default :: "int option \<Rightarrow> int" where
  "or_default None = 10"
| "or_default (Some n) = n"

fun or_nil :: "'a list option \<Rightarrow> 'a list" where
  "or_nil None = []"
| "or_nil (Some xs) = xs"

definition searchEmails ::
  "(string \<Rightarrow> string) \<Rightarrow> gmail_client \<Rightarrow> nat list \<Rightarrow> string \<Rightarrow> int option
    \<Rightarrow> (fault + search_emails_result) option \<times> event list" where
  "searchEmails toLowerCase this order query maxResults =
     (case messages_list (gmail this) query (or_default maxResults) of
        Inl e \<Rightarrow> (Some (Inl e), [MessagesList query (or_default maxResults)])
      | Inr res \<Rightarrow>
          (let msgs = or_nil (list_messages res)
           in ((case promise_all (map (fetch toLowerCase this) msgs) order of
                  None \<Rightarrow> None
                | Some (Inl e) \<Rightarrow> Some (Inl e)
                | Some (Inr messages) \<Rightarrow>
                    Some (Inr \<lparr>sr_messages = messages,
                               sr_resultSizeEstimate = list_resultSizeEstimate res,
                               sr_nextPageToken = list_nextPageToken res\<rparr>)),
               MessagesList query (or_default maxResults)
                 # concat (map (\<lambda>msg. snd (getMessage this (ref_id msg))) msgs))))"

section \<open>The tool handlers and the refresh variant of the guide\<close>

text \<open>
  What a handler returns to the protocol layer: the text of its single content item and
  the \<open>isError\<close> flag. A handler whose promise rejects has thrown past the tool
  boundary: its outcome is \<open>Inl\<close>.
\<close>

record tool_response =
  content_text :: string
  isError :: bool

text \<open>
  \<open>send_email\<close>: the call of \<open>sendEmail\<close> stands in a \<open>try\<close>, and the \<open>catch\<close>
  turns the fault into an error payload.
\<close>

definition send_email ::
  "gmail_client \<Rightarrow> string list \<Rightarrow> string \<Rightarrow> string \<Rightarrow> string list option \<Rightarrow> string list option
    \<Rightarrow> (fault + tool_response) \<times> event list" where
  "send_email gmailClient to subject body cc bcc =
     (case sendEmail gmailClient to subject body cc bcc of
        (Inr messageId, evs) \<Rightarrow>
          (Inr \<lparr>content_text = ''Email sent successfully. Message ID: '' @ messageId,
                isError = False\<rparr>, evs)
      | (Inl error, evs) \<Rightarrow>
          (Inr \<lparr>content_text = ''Error: '' @ error_message error, isError = True\<rparr>, evs))"

text \<open>
  \<^verbatim>\<open>
  async ({ messageId, addLabels, removeLabels }) => {
    await gmail.users.messages.modify({ userId: 'me', id: messageId,
      requestBody: { addLabelIds: addLabels, removeLabelIds: removeLabels } });
    return { content: [{ type: "text", text: "Labels updated successfully" }] };
  }
  \<close>
  No \<open>try\<close> surrounds the call: a rejected \<open>modify\<close> rejects the handler.
\<close>

definition manage_labels ::
  "gmail_api \<Rightarrow> string \<Rightarrow> string list option \<Rightarrow> string list option
    \<Rightarrow> (fault + tool_response) \<times> event list" where
  "manage_labels api messageId addLabels removeLabels =
     (case messages_modify api messageId addLabels removeLabels of
        Inl error \<Rightarrow> (Inl error, [MessagesModify messageId])
      | Inr u \<Rightarrow>
          (Inr \<lparr>content_text = ''Labels updated successfully'', isError = False\<rparr>,
           [MessagesModify messageId]))"

text \<open>
  \<open>send_html_email\<close>: the boundary is \<open>boundary_\<close> followed by \<open>Date.now()\<close>, the
  plain part is \<open>plainText || 'This email requires HTML support'\<close>.
  \<^verbatim>\<open>
  const messageParts = [
    `To: ${to.join(', ')}`, `Subject: ${subject}`,
    `Content-Type: multipart/alternative; boundary="${boundary}"`, '',
    `--${boundary}`, 'Content-Type: text/plain; charset=utf-8', '',
    plainText || 'This email requires HTML support', '',
    `--${boundary}`, 'Content-Type: text/html; charset=utf-8', '',
    htmlBody, '',
    `--${boundary}--`
  ];
  \<close>
\<close>

definition boundary_at :: "int \<Rightarrow> string" where
  "boundary_at t = ''boundary_'' @ string_of_int t"

fun plain_or_default :: "string option \<Rightarrow> string" where
  "plain_or_default None = ''This email requires HTML support''"
| "plain_or_default (Some p) = (if p = [] then ''This email requires HTML support'' else p)"

definition htmlParts :: "string \<Rightarrow> string list \<Rightarrow> string \<Rightarrow> string \<Rightarrow> string option \<Rightarrow> string list" where
  "htmlParts boundary to subject htmlBody plainText =
     [''To: '' @ join '', '' to,
      ''Subject: '' @ subject,
      ''Content-Type: multipart/alternative; boundary='' @ [CHR 0x22] @ boundary @ [CHR 0x22],
      [],
      ''--'' @ boundary,
      ''Content-Type: text/plain; charset=utf-8'',
      [],
      plain_or_default plainText,
      [],
      ''--'' @ boundary,
      ''Content-Type: text/html; charset=utf-8'',
      [],
      htmlBody,
      [],
      ''--'' @ boundary @ ''--'']"

definition html_email :: "int \<Rightarrow> string list \<Rightarrow> string \<Rightarrow> string \<Rightarrow> string option \<Rightarrow> string" where
  "html_email t to subject htmlBody plainText =
     join crlf (htmlParts (boundary_at t) to subject htmlBody plainText)"

definition send_html_email ::
  "gmail_api \<Rightarrow> int \<Rightarrow> string list \<Rightarrow> string \<Rightarrow> string \<Rightarrow> string option
    \<Rightarrow> (fault + tool_response) \<times> event list" where
  "send_html_email api t to subject htmlBody plainText =
     (let encodedEmail = base64url (html_email t to subject htmlBody plainText)
      in (case messages_send api encodedEmail of
            Inl error \<Rightarrow> (Inl error, [MessagesSend encodedEmail])
          | Inr msgid \<Rightarrow>
              (Inr \<lparr>content_text = ''HTML email sent: '' @ msgid, isError = False\<rparr>,
               [MessagesSend encodedEmail])))"

text \<open>
  The guide's own \<open>refreshTokenIfNeeded\<close>, which differs from \<open>AuthManager\<close>'s in its
  \<open>catch\<close>: it logs and runs \<open>authenticate()\<close> again instead of rethrowing.
  \<open>authenticate()\<close> loads the saved token file and, when there is none, runs the
  interactive consent flow and saves its result.
\<close>

record guide_env =
  tokens :: token_env
  savedCredentials :: "credentials option"
  consent :: "fault + credentials"
  saveCredentials :: "credentials \<Rightarrow> fault + unit"

definition authenticate ::
  "guide_env \<Rightarrow> credentials \<Rightarrow> (fault + unit) \<times> credentials \<times> event list" where
  "authenticate env creds =
     (case savedCredentials env of
        Some saved \<Rightarrow> (Inr (), saved, [LoadSavedCredentials])
      | None \<Rightarrow>
          (case consent env of
             Inl e \<Rightarrow> (Inl e, creds, [LoadSavedCredentials, ConsentFlow])
           | Inr fresh \<Rightarrow>
               (case saveCredentials env fresh of
                  Inl e \<Rightarrow> (Inl e, creds, [LoadSavedCredentials, ConsentFlow, SaveCredentials])
                | Inr u \<Rightarrow> (Inr (), fresh, [LoadSavedCredentials, ConsentFlow, SaveCredentials]))))"

definition guide_refreshTokenIfNeeded ::
  "guide_env \<Rightarrow> credentials \<Rightarrow> (fault + unit) \<times> credentials \<times> event list" where
  "guide_refreshTokenIfNeeded env creds =
     (if truthy_num (expiry_date creds) \<and> now (tokens env) \<ge> the (expiry_date creds) then
        (case refreshAccessToken (tokens env) creds of
           Inr new_creds \<Rightarrow>
             (case saveCredentials env new_creds of
                Inr u \<Rightarrow> (Inr (), new_creds, [RefreshAccessToken, SaveCredentials])
              | Inl error \<Rightarrow>
                  (case authenticate env new_creds of
                     (r, c, evs) \<Rightarrow>
                       (r, c, [RefreshAccessToken, SaveCredentials,
                               ConsoleError ''Token refresh failed, need re-authentication'']
                              @ evs)))
         | Inl error \<Rightarrow>
             (case authenticate env creds of
                (r, c, evs) \<Rightarrow>
                  (r, c, [RefreshAccessToken,
                          ConsoleError ''Token refresh failed, need re-authentication''] @ evs)))
      else (Inr (), creds, []))"

section \<open>The layers around the operations\<close>








section \<open>Example data\<close>

definition headers_of :: "string \<Rightarrow> gmail_header list" where
  "headers_of i =
     [\<lparr>header_name = Some ''From'', header_value = Some ''a@x.com''\<rparr>,
      \<lparr>header_name = Some ''SUBJECT'', header_value = Some (''Re: '' @ i)\<rparr>,
      \<lparr>header_name = Some ''Subject'', header_value = Some ''second''\<rparr>,
      \<lparr>header_name = Some ''Date'', header_value = None\<rparr>]"

definition detail_of :: "string \<Rightarrow> gmail_message_data" where
  "detail_of i =
     \<lparr>data_id = i, data_threadId = ''t-'' @ i, snippet = ''about '' @ i,
      payload = Some \<lparr>headers = Some (headers_of i)\<rparr>\<rparr>"

definition detail_without_payload :: gmail_message_data where
  "detail_without_payload =
     \<lparr>data_id = ''m0'', data_threadId = ''t0'', snippet = [], payload = None\<rparr>"

definition detail_without_headers :: gmail_message_data where
  "detail_without_headers =
     \<lparr>data_id = ''m0'', data_threadId = ''t0'', snippet = [],
      payload = Some \<lparr>headers = None\<rparr>\<rparr>"

definition detail_with_nameless_header :: gmail_message_data where
  "detail_with_nameless_header =
     \<lparr>data_id = ''m0'', data_threadId = ''t0'', snippet = [],
      payload = Some \<lparr>headers = Some
        [\<lparr>header_name = None, header_value = Some ''x''\<rparr>,
         \<lparr>header_name = Some ''Subject'', header_value = Some ''v''\<rparr>]\<rparr>\<rparr>"

definition listed :: "message_ref list" where
  "listed =
     [\<lparr>ref_id = ''m3'', ref_threadId = ''t3''\<rparr>,
      \<lparr>ref_id = ''m1'', ref_threadId = ''t1''\<rparr>,
      \<lparr>ref_id = ''m2'', ref_threadId = ''t2''\<rparr>]"

definition api_ok :: gmail_api where
  "api_ok =
     \<lparr>messages_send = (\<lambda>raw. Inr ''msg-1''),
      messages_list = (\<lambda>q n. Inr \<lparr>list_messages = Some listed,
                                  list_resultSizeEstimate = Some 3,
                                  list_nextPageToken = None\<rparr>),
      messages_get = (\<lambda>i. Inr (detail_of i)),
      messages_modify = (\<lambda>i a r. Inr ())\<rparr>"

definition api_not_found :: gmail_api where
  "api_not_found =
     \<lparr>messages_send = (\<lambda>raw. Inl (Fault ''Requested entity was not found.'')),
      messages_list = (\<lambda>q n. Inl (Fault ''Requested entity was not found.'')),
      messages_get = (\<lambda>i. Inl (Fault ''Requested entity was not found.'')),
      messages_modify = (\<lambda>i a r. Inl (Fault ''Requested entity was not found.''))\<rparr>"

definition client_expired :: gmail_client where
  "client_expired =
     \<lparr>gmail = api_ok, auth = creds_expiring_at 1000, accountEmail = ''me@x.com''\<rparr>"


definition guide_env_saved_token :: guide_env where
  "guide_env_saved_token =
     \<lparr>tokens = env_invalid_grant 2000, savedCredentials = Some creds_no_expiry,
      consent = Inr creds_no_expiry, saveCredentials = (\<lambda>c. Inr ())\<rparr>"

definition guide_env_no_token :: guide_env where
  "guide_env_no_token =
     \<lparr>tokens = env_invalid_grant 2000, savedCredentials = None,
      consent = Inr creds_no_expiry, saveCredentials = (\<lambda>c. Inr ())\<rparr>"

definition client_ok :: gmail_client where
  "client_ok = \<lparr>gmail = api_ok, auth = creds_no_expiry, accountEmail = ''me@x.com''\<rparr>"

text \<open>A subject and a plain text that carry line breaks of their own.\<close>

definition subject_with_blank_line :: string where
  "subject_with_blank_line = ''Hi'' @ crlf @ crlf @ ''X''"

definition plain_with_delimiter :: string where
  "plain_with_delimiter = ''a'' @ crlf @ ''--boundary_5 '' @ crlf @ ''b''"

section \<open>Reading the submitted requests back\<close>

text \<open>
  The messages a run has submitted to \<open>messages.send\<close>, decoded from their \<open>raw\<close>
  field, and the parts a recipient finds in a decoded message for a boundary \<open>b\<close>.
\<close>

fun sent_messages :: "event list \<Rightarrow> string option list" where
  "sent_messages [] = []"
| "sent_messages (MessagesSend raw # evs) = base64url_decode raw # sent_messages evs"
| "sent_messages (e # evs) = sent_messages evs"

definition message_parts :: "string \<Rightarrow> string \<Rightarrow> string list list option" where
  "message_parts b m = mime_parts b (body_lines m)"

section \<open>Lemmas on strings\<close>

subsection \<open>Decoding undoes the encoding\<close>

lemma index_of_nth: "distinct xs \<Longrightarrow> n < length xs \<Longrightarrow> index_of (xs ! n) xs = Some n"
proof (induction xs arbitrary: n)
  case Nil
  then show ?case by simp
next
  case (Cons x xs)
  then show ?case by (cases n) auto
qed

lemma index_of_sextet_char: "n < 64 \<Longrightarrow> index_of (sextet_char n) base64url_alphabet = Some n"
proof -
  have "distinct base64url_alphabet" "length base64url_alphabet = 64"
    by (simp_all add: base64url_alphabet_def)
  then show "n < 64 \<Longrightarrow> index_of (sextet_char n) base64url_alphabet = Some n"
    by (simp add: sextet_char_def index_of_nth)
qed

lemma sextets_of_chars_map:
  "list_all (\<lambda>n. n < 64) ns \<Longrightarrow> sextets_of_chars (map sextet_char ns) = Some ns"
  by (induction ns) (simp_all add: index_of_sextet_char)

lemma sextet_bounds:
  fixes a b c :: nat
  assumes "a < 256" "b < 256" "c < 256"
  shows "a div 4 < 64" "a mod 4 * 16 + b div 16 < 64" "b mod 16 * 4 + c div 64 < 64"
    "a mod 4 * 16 < 64" "b mod 16 * 4 < 64"
proof -
  have "b div 16 < 16" "c div 64 < 4" "a mod 4 < 4" "b mod 16 < 16"
    using assms by simp_all
  then show "a mod 4 * 16 + b div 16 < 64" "b mod 16 * 4 + c div 64 < 64"
    "a mod 4 * 16 < 64" "b mod 16 * 4 < 64"
    by linarith+
  show "a div 4 < 64" using assms by simp
qed

lemma sextets_of_bytes_bound:
  "list_all (\<lambda>n. n < 256) bs \<Longrightarrow> list_all (\<lambda>n. n < 64) (sextets_of_bytes bs)"
proof (induction bs rule: sextets_of_bytes.induct)
  case (1 a b c rest)
  then have lt: "a < 256" "b < 256" "c < 256" and rest: "list_all (\<lambda>n. n < 256) rest"
    by simp_all
  have "c mod 64 < 64" by simp
  with sextet_bounds(1-3) [OF lt] "1.IH" [OF rest] show ?case
    by simp
next
  case (2 a b)
  then have lt: "a < 256" "b < 256" by simp_all
  from sextet_bounds(1,2,5) [OF lt lt(2)] show ?case
    by simp
next
  case (3 a)
  then have lt: "a < 256" by simp
  from sextet_bounds(1,4) [OF lt lt lt] show ?case
    by simp
next
  case 4
  show ?case by simp
qed

lemma regroup_first:
  fixes a b :: nat
  assumes "b < 256"
  shows "a div 4 * 4 + (a mod 4 * 16 + b div 16) div 16 = a"
proof -
  have "b div 16 div 16 = 0" using assms by (simp add: div_mult2_eq [symmetric])
  then show ?thesis by simp
qed

lemma regroup_second:
  fixes a b c :: nat
  assumes "b < 256" "c < 256"
  shows "(a mod 4 * 16 + b div 16) mod 16 * 16 + (b mod 16 * 4 + c div 64) div 4 = b"
proof -
  have "c div 64 div 4 = 0" using assms by (simp add: div_mult2_eq [symmetric])
  moreover have "b div 16 mod 16 = b div 16" using assms by simp
  ultimately show ?thesis by simp
qed

lemma regroup_third:
  fixes b c :: nat
  assumes "c < 256"
  shows "(b mod 16 * 4 + c div 64) mod 4 * 64 + c mod 64 = c"
proof -
  have "c div 64 mod 4 = c div 64" using assms by simp
  then show ?thesis by simp
qed

lemma regroup_first_tail:
  fixes a :: nat
  shows "a div 4 * 4 + a mod 4 * 16 div 16 = a"
  by simp

lemma regroup_second_tail:
  fixes a b :: nat
  assumes "b < 256"
  shows "(a mod 4 * 16 + b div 16) mod 16 * 16 + b mod 16 * 4 div 4 = b"
proof -
  have "b div 16 mod 16 = b div 16" using assms by simp
  then show ?thesis by simp
qed

lemma bytes_of_sextets_inverse:
  "list_all (\<lambda>n. n < 256) bs \<Longrightarrow> bytes_of_sextets (sextets_of_bytes bs) = Some bs"
proof (induction bs rule: sextets_of_bytes.induct)
  case (1 a b c rest)
  then have lt: "a < 256" "b < 256" "c < 256" and rest: "list_all (\<lambda>n. n < 256) rest"
    by simp_all
  show ?case
    unfolding sextets_of_bytes.simps bytes_of_sextets.simps "1.IH" [OF rest]
      regroup_first [OF lt(2)] regroup_second [OF lt(2,3)] regroup_third [OF lt(3)]
    by simp
next
  case (2 a b)
  then have lt: "a < 256" "b < 256" by simp_all
  show ?case
    unfolding sextets_of_bytes.simps bytes_of_sextets.simps
      regroup_first [OF lt(2)] regroup_second_tail [OF lt(2)]
    by simp
next
  case (3 a)
  show ?case
    unfolding sextets_of_bytes.simps bytes_of_sextets.simps regroup_first_tail
    by simp
next
  case 4
  show ?case by simp
qed

lemma of_char_bound: "list_all (\<lambda>n. n < 256) (map (of_char :: char \<Rightarrow> nat) s)"
proof -
  have "(of_char c :: nat) < 256" for c
    by (metis of_char_mod_256 mod_less_divisor zero_less_numeral)
  then show ?thesis by (simp add: list_all_iff)
qed

lemma base64url_roundtrip: "base64url_decode (base64url s) = Some s"
  by (simp add: base64url_decode_def base64url_def sextets_of_chars_map sextets_of_bytes_bound
        bytes_of_sextets_inverse of_char_bound comp_def)

subsection \<open>Lines\<close>

lemma split_crlf_nonempty: "split_crlf s \<noteq> []"
  by (induction s rule: split_crlf.induct) (auto split: list.splits)

lemma split_crlf_append: "split_crlf (s @ CR # LF # t) = split_crlf s @ split_crlf t"
proof (induction s rule: split_crlf.induct)
  case (1 a b cs)
  then show ?case
    by (cases "split_crlf (b # cs)") (auto simp: split_crlf_nonempty)
next
  case (2 a)
  have "CR \<noteq> LF" by (simp add: CR_def LF_def)
  then show ?case by simp
next
  case 3
  show ?case by simp
qed

lemma split_crlf_single: "\<not> has_crlf s \<Longrightarrow> split_crlf s = [s]"
  by (induction s rule: split_crlf.induct) auto

lemma join_append:
  "xs \<noteq> [] \<Longrightarrow> ys \<noteq> [] \<Longrightarrow> join sep (xs @ ys) = join sep xs @ sep @ join sep ys"
  by (induction sep xs rule: join.induct) (auto simp: neq_Nil_conv)

lemma join_split_crlf: "join crlf (split_crlf s) = s"
proof (induction s rule: split_crlf.induct)
  case (1 a b cs)
  show ?case
  proof (cases "a = CR \<and> b = LF")
    case True
    with 1 show ?thesis
      by (cases "split_crlf cs") (auto simp: crlf_def split_crlf_nonempty)
  next
    case False
    with 1 show ?thesis
      by (cases "split_crlf (b # cs)"; cases "tl (split_crlf (b # cs))")
         (auto simp: split_crlf_nonempty)
  qed
qed simp_all

lemma split_crlf_join:
  "parts \<noteq> [] \<Longrightarrow> split_crlf (join crlf parts) = concat (map split_crlf parts)"
proof (induction crlf parts rule: join.induct)
  case (3 x y ys)
  then show ?case by (simp add: crlf_def split_crlf_append)
qed simp_all

section \<open>Properties of the refresh guard\<close>

text \<open>
  C7. For a credential whose \<open>expiry_date\<close> is set to a non-zero number,
  \<open>refreshTokenIfNeeded\<close> calls the token endpoint exactly when the current instant is
  greater than or equal to the expiry: a token expiring at this very instant is refreshed,
  a token expiring strictly later is not. An \<open>expiry_date\<close> of \<open>0\<close> is set and in the
  past, yet falsy, and is not refreshed, as the counterexample shows.
\<close>

theorem refresh_entered_iff_expired:
  assumes "expiry_date creds = Some e" and "e \<noteq> 0"
  shows "(RefreshAccessToken \<in> set (calls (refreshTokenIfNeeded env creds))) = (now env \<ge> e)
    \<and> (now env = e \<longrightarrow> hd (calls (refreshTokenIfNeeded env creds)) = RefreshAccessToken)
    \<and> (now env < e \<longrightarrow> refreshTokenIfNeeded env creds = (Inr (), creds, []))"
  using assms
  by (auto simp: refreshTokenIfNeeded_def calls_def split: sum.splits)

theorem refresh_entered_iff_expired_witness:
  "expiry_date (creds_expiring_at 1000) = Some 1000 \<and> (1000::int) \<noteq> 0
   \<and> now (env_ok 1000) = 1000
   \<and> RefreshAccessToken \<in> set (calls (refreshTokenIfNeeded (env_ok 1000) (creds_expiring_at 1000)))
   \<and> hd (calls (refreshTokenIfNeeded (env_ok 1000) (creds_expiring_at 1000))) = RefreshAccessToken
   \<and> now (env_ok 999) < 1000
   \<and> refreshTokenIfNeeded (env_ok 999) (creds_expiring_at 1000)
       = (Inr (), creds_expiring_at 1000, [])"
proof -
  have e: "expiry_date (creds_expiring_at 1000) = Some 1000" "(1000::int) \<noteq> 0"
    by (simp_all add: creds_expiring_at_def)
  have n: "now (env_ok 1000) = 1000" "now (env_ok 999) < 1000"
    by (simp_all add: env_ok_def)
  show ?thesis
    using e n
      refresh_entered_iff_expired [OF e, of "env_ok 1000"]
      refresh_entered_iff_expired [OF e, of "env_ok 999"]
    by simp
qed

theorem zero_expiry_counterexample:
  "expiry_date (creds_expiring_at 0) = Some 0
   \<and> now (env_ok 5000) \<ge> 0
   \<and> refreshTokenIfNeeded (env_ok 5000) (creds_expiring_at 0)
       = (Inr (), creds_expiring_at 0, [])"
  by (simp add: refreshTokenIfNeeded_def creds_expiring_at_def env_ok_def)

text \<open>
  C10. When \<open>expiry_date\<close> is absent (or null) or zero, \<open>refreshTokenIfNeeded\<close>
  makes no call at all, returns normally and leaves the stored credentials as they were,
  whatever the access token is: no refresh can start without a truthy \<open>expiry_date\<close>.
\<close>

theorem no_expiry_no_refresh:
  assumes "expiry_date creds = None \<or> expiry_date creds = Some 0"
  shows "refreshTokenIfNeeded env creds = (Inr (), creds, [])
    \<and> RefreshAccessToken \<notin> set (calls (refreshTokenIfNeeded env creds))
    \<and> stored (refreshTokenIfNeeded env creds) = creds"
  using assms
  by (auto simp: refreshTokenIfNeeded_def calls_def stored_def)

theorem no_expiry_no_refresh_witness:
  "(expiry_date creds_no_expiry = None \<or> expiry_date creds_no_expiry = Some 0)
   \<and> access_token creds_no_expiry = None
   \<and> refreshTokenIfNeeded (env_ok 5000) creds_no_expiry = (Inr (), creds_no_expiry, [])
   \<and> RefreshAccessToken \<notin> set (calls (refreshTokenIfNeeded (env_ok 5000) creds_no_expiry))
   \<and> stored (refreshTokenIfNeeded (env_ok 5000) creds_no_expiry) = creds_no_expiry"
proof -
  have h: "expiry_date creds_no_expiry = None \<or> expiry_date creds_no_expiry = Some 0"
    by (simp add: creds_no_expiry_def)
  have "access_token creds_no_expiry = None"
    by (simp add: creds_no_expiry_def)
  with h no_expiry_no_refresh [OF h, of "env_ok 5000"] show ?thesis
    by blast
qed

text \<open>
  C6. When the refresh exchange fails, with \<open>invalid_grant\<close> or with any other error
  (the errors are not classified), \<open>AuthManager.refreshTokenIfNeeded\<close> logs one line and
  rethrows the error of the exchange, unchanged, to its caller. Its outward calls are the
  one exchange and the log line: the exchange is not tried again, no consent flow is
  started, and the stored credentials are untouched. The guide's variant of the guard
  behaves otherwise, as the counterexample shows.
\<close>

theorem refresh_failure_is_surfaced:
  assumes "expiry_date creds = Some e" and "e \<noteq> 0" and "e \<le> now env"
    and "refreshAccessToken env creds = Inl err"
  shows "outcome (refreshTokenIfNeeded env creds) = Inl err
    \<and> calls (refreshTokenIfNeeded env creds)
        = [RefreshAccessToken, ConsoleError ''Token refresh failed, need re-authentication'']
    \<and> count_list (calls (refreshTokenIfNeeded env creds)) RefreshAccessToken = 1
    \<and> ConsentFlow \<notin> set (calls (refreshTokenIfNeeded env creds))
    \<and> stored (refreshTokenIfNeeded env creds) = creds"
  using assms
  by (simp add: refreshTokenIfNeeded_def outcome_def calls_def stored_def)

theorem refresh_failure_is_surfaced_witness:
  "expiry_date (creds_expiring_at 1000) = Some 1000 \<and> (1000::int) \<noteq> 0
   \<and> 1000 \<le> now (env_invalid_grant 2000)
   \<and> refreshAccessToken (env_invalid_grant 2000) (creds_expiring_at 1000)
       = Inl (Fault ''invalid_grant'')
   \<and> outcome (refreshTokenIfNeeded (env_invalid_grant 2000) (creds_expiring_at 1000))
       = Inl (Fault ''invalid_grant'')
   \<and> calls (refreshTokenIfNeeded (env_invalid_grant 2000) (creds_expiring_at 1000))
       = [RefreshAccessToken, ConsoleError ''Token refresh failed, need re-authentication'']
   \<and> stored (refreshTokenIfNeeded (env_invalid_grant 2000) (creds_expiring_at 1000))
       = creds_expiring_at 1000"
proof -
  have h: "expiry_date (creds_expiring_at 1000) = Some 1000" "(1000::int) \<noteq> 0"
    "1000 \<le> now (env_invalid_grant 2000)"
    "refreshAccessToken (env_invalid_grant 2000) (creds_expiring_at 1000)
      = Inl (Fault ''invalid_grant'')"
    by (simp_all add: creds_expiring_at_def env_invalid_grant_def)
  from h refresh_failure_is_surfaced [OF h] show ?thesis
    by blast
qed

theorem guide_refresh_counterexample:
  "guide_refreshTokenIfNeeded guide_env_no_token (creds_expiring_at 1000)
     = (Inr (), creds_no_expiry,
        [RefreshAccessToken, ConsoleError ''Token refresh failed, need re-authentication'',
         LoadSavedCredentials, ConsentFlow, SaveCredentials])
   \<and> guide_refreshTokenIfNeeded guide_env_saved_token (creds_expiring_at 1000)
     = (Inr (), creds_no_expiry,
        [RefreshAccessToken, ConsoleError ''Token refresh failed, need re-authentication'',
         LoadSavedCredentials])"
  by (simp add: guide_refreshTokenIfNeeded_def guide_env_no_token_def guide_env_saved_token_def
        authenticate_def env_invalid_grant_def creds_expiring_at_def)

section \<open>Properties of the mail operations\<close>

lemma or_empty_value: "or_empty v = (case v of None \<Rightarrow> [] | Some s \<Rightarrow> s)"
  by (cases v) simp_all

lemma find_header_no_match:
  "\<forall>h \<in> set hs. \<exists>k. header_name h = Some k \<and> lc k \<noteq> lc n \<Longrightarrow> find_header lc n hs = Inr None"
  by (induction hs) auto

lemma find_header_first_match:
  assumes "i < length hs" and "header_name (hs ! i) = Some k" and "lc k = lc n"
    and "\<forall>j<i. \<exists>k'. header_name (hs ! j) = Some k' \<and> lc k' \<noteq> lc n"
  shows "find_header lc n hs = Inr (Some (hs ! i))"
  using assms
proof (induction hs arbitrary: i)
  case Nil
  then show ?case by simp
next
  case (Cons h hs)
  show ?case
  proof (cases i)
    case 0
    with Cons.prems show ?thesis by simp
  next
    case (Suc i')
    from Cons.prems(4) Suc obtain k' where h: "header_name h = Some k'" "lc k' \<noteq> lc n"
      by fastforce
    have "\<forall>j<i'. \<exists>k'. header_name (hs ! j) = Some k' \<and> lc k' \<noteq> lc n"
      using Cons.prems(4) Suc by fastforce
    with Cons.prems Suc have "find_header lc n hs = Inr (Some (hs ! i'))"
      by (intro Cons.IH) simp_all
    with h Suc show ?thesis by simp
  qed
qed

text \<open>
  C8. For a message in which every header examined carries a name, \<open>extractHeader\<close>
  returns normally. It returns the empty string when the payload is absent, when the
  headers list is absent, and when no header matches; and when the header at index \<open>i\<close>
  is the first whose lower-cased name equals the lower-cased requested name, it returns
  that header's value, or the empty string when the value is absent. A header without a
  name that is reached before a match makes it throw, as the counterexample shows.
\<close>

theorem extractHeader_first_match:
  "(payload m = None \<longrightarrow> extractHeader lc m n = Inr [])
   \<and> (\<forall>p. payload m = Some p \<and> headers p = None \<longrightarrow> extractHeader lc m n = Inr [])
   \<and> (\<forall>p hs. payload m = Some p \<and> headers p = Some hs
         \<and> (\<forall>h \<in> set hs. \<exists>k. header_name h = Some k \<and> lc k \<noteq> lc n)
        \<longrightarrow> extractHeader lc m n = Inr [])
   \<and> (\<forall>p hs i k. payload m = Some p \<and> headers p = Some hs \<and> i < length hs
         \<and> header_name (hs ! i) = Some k \<and> lc k = lc n
         \<and> (\<forall>j<i. \<exists>k'. header_name (hs ! j) = Some k' \<and> lc k' \<noteq> lc n)
        \<longrightarrow> extractHeader lc m n
              = Inr (case header_value (hs ! i) of None \<Rightarrow> [] | Some v \<Rightarrow> v))"
proof (intro conjI allI impI)
  assume "payload m = None"
  then show "extractHeader lc m n = Inr []" by (simp add: extractHeader_def)
next
  fix p assume "payload m = Some p \<and> headers p = None"
  then show "extractHeader lc m n = Inr []" by (simp add: extractHeader_def)
next
  fix p hs
  assume a: "payload m = Some p \<and> headers p = Some hs
    \<and> (\<forall>h \<in> set hs. \<exists>k. header_name h = Some k \<and> lc k \<noteq> lc n)"
  then have "find_header lc n hs = Inr None"
    by (intro find_header_no_match) simp
  with a show "extractHeader lc m n = Inr []" by (simp add: extractHeader_def)
next
  fix p hs i k
  assume a: "payload m = Some p \<and> headers p = Some hs \<and> i < length hs
    \<and> header_name (hs ! i) = Some k \<and> lc k = lc n
    \<and> (\<forall>j<i. \<exists>k'. header_name (hs ! j) = Some k' \<and> lc k' \<noteq> lc n)"
  then have "find_header lc n hs = Inr (Some (hs ! i))"
    by (intro find_header_first_match [of i hs k]) simp_all
  with a show "extractHeader lc m n
      = Inr (case header_value (hs ! i) of None \<Rightarrow> [] | Some v \<Rightarrow> v)"
    by (simp add: extractHeader_def or_empty_value)
qed

lemma lower_headers:
  "ascii_lower ''From'' \<noteq> ascii_lower ''Subject''"
  "ascii_lower ''SUBJECT'' = ascii_lower ''Subject''"
  "ascii_lower ''From'' \<noteq> ascii_lower ''Date''"
  "ascii_lower ''SUBJECT'' \<noteq> ascii_lower ''Date''"
  "ascii_lower ''Subject'' \<noteq> ascii_lower ''Date''"
  "ascii_lower ''From'' \<noteq> ascii_lower ''To''"
  "ascii_lower ''SUBJECT'' \<noteq> ascii_lower ''To''"
  "ascii_lower ''Subject'' \<noteq> ascii_lower ''To''"
  "ascii_lower ''Date'' \<noteq> ascii_lower ''To''"
  by code_simp+

theorem extractHeader_first_match_witness:
  "extractHeader ascii_lower (detail_of ''m1'') ''Subject'' = Inr ''Re: m1''
   \<and> extractHeader ascii_lower (detail_of ''m1'') ''Date'' = Inr []
   \<and> extractHeader ascii_lower (detail_of ''m1'') ''To'' = Inr []
   \<and> extractHeader ascii_lower detail_without_headers ''Subject'' = Inr []
   \<and> extractHeader ascii_lower detail_without_payload ''Subject'' = Inr []"
proof -
  let ?p = "\<lparr>headers = Some (headers_of ''m1'')\<rparr>"
  let ?hs = "headers_of ''m1''"
  note absent = extractHeader_first_match [THEN conjunct1, rule_format]
  note no_list = extractHeader_first_match [THEN conjunct2, THEN conjunct1, rule_format]
  note no_match = extractHeader_first_match [THEN conjunct2, THEN conjunct2, THEN conjunct1,
      rule_format]
  note match = extractHeader_first_match [THEN conjunct2, THEN conjunct2, THEN conjunct2,
      rule_format]
  have s1: "payload (detail_of ''m1'') = Some ?p \<and> headers ?p = Some ?hs \<and> 1 < length ?hs
      \<and> header_name (?hs ! 1) = Some ''SUBJECT''
      \<and> ascii_lower ''SUBJECT'' = ascii_lower ''Subject''
      \<and> (\<forall>j<1. \<exists>k'. header_name (?hs ! j) = Some k'
            \<and> ascii_lower k' \<noteq> ascii_lower ''Subject'')"
    by (simp add: detail_of_def headers_of_def lower_headers)
  have v1: "header_value (?hs ! 1) = Some ''Re: m1''"
    by (simp add: headers_of_def)
  have j3: "j < 3 \<Longrightarrow> j = 0 \<or> j = 1 \<or> j = 2" for j :: nat
    by arith
  have s3: "payload (detail_of ''m1'') = Some ?p \<and> headers ?p = Some ?hs \<and> 3 < length ?hs
      \<and> header_name (?hs ! 3) = Some ''Date''
      \<and> ascii_lower ''Date'' = ascii_lower ''Date''
      \<and> (\<forall>j<3. \<exists>k'. header_name (?hs ! j) = Some k' \<and> ascii_lower k' \<noteq> ascii_lower ''Date'')"
  proof (intro conjI allI impI)
    fix j :: nat assume "j < 3"
    then have "j = 0 \<or> j = 1 \<or> j = 2" by (rule j3)
    then show "\<exists>k'. header_name (?hs ! j) = Some k' \<and> ascii_lower k' \<noteq> ascii_lower ''Date''"
      by (elim disjE) (simp_all add: headers_of_def lower_headers)
  qed (simp_all add: detail_of_def headers_of_def)
  have v3: "header_value (?hs ! 3) = None"
    by (simp add: headers_of_def)
  have none: "payload (detail_of ''m1'') = Some ?p \<and> headers ?p = Some ?hs
      \<and> (\<forall>h \<in> set ?hs. \<exists>k. header_name h = Some k \<and> ascii_lower k \<noteq> ascii_lower ''To'')"
    by (simp add: detail_of_def headers_of_def lower_headers)
  have q: "payload detail_without_headers = Some \<lparr>headers = None\<rparr>
      \<and> headers \<lparr>headers = None\<rparr> = None"
    by (simp add: detail_without_headers_def)
  have r: "payload detail_without_payload = None"
    by (simp add: detail_without_payload_def)
  have "extractHeader ascii_lower (detail_of ''m1'') ''Subject'' = Inr ''Re: m1''"
    unfolding match [OF s1] v1 by simp
  moreover have "extractHeader ascii_lower (detail_of ''m1'') ''Date'' = Inr []"
    unfolding match [OF s3] v3 by simp
  moreover note no_match [OF none] no_list [OF q] absent [OF r]
  ultimately show ?thesis by simp
qed

theorem nameless_header_counterexample:
  "extractHeader ascii_lower detail_with_nameless_header ''Subject'' = Inl name_type_error
   \<and> extractHeader ascii_lower detail_with_nameless_header ''To'' = Inl name_type_error"
  by (simp add: extractHeader_def detail_with_nameless_header_def)

lemma settle_fulfilled:
  "length slots = length vs \<Longrightarrow>
   settle (map Inr vs) order slots
     = Inr (map (\<lambda>j. if j \<in> set order then Some (vs ! j) else slots ! j) [0..<length vs])"
proof (induction order arbitrary: slots)
  case Nil
  then have "map ((!) slots) [0..<length vs] = slots"
    by (metis map_nth)
  then show ?case by simp
next
  case (Cons i order)
  show ?case
  proof (cases "i < length vs")
    case True
    have "settle (map Inr vs) (i # order) slots
        = settle (map Inr vs) order (slots[i := Some (vs ! i)])"
      using True by simp
    also have "\<dots> = Inr (map (\<lambda>j. if j \<in> set order then Some (vs ! j)
                                   else slots[i := Some (vs ! i)] ! j) [0..<length vs])"
      using Cons.prems by (intro Cons.IH) simp
    also have "\<dots> = Inr (map (\<lambda>j. if j \<in> set (i # order) then Some (vs ! j) else slots ! j)
                           [0..<length vs])"
      using Cons.prems by (auto simp: nth_list_update)
    finally show ?thesis .
  next
    case False
    then have "settle (map Inr vs) (i # order) slots = settle (map Inr vs) order slots"
      by simp
    also have "\<dots> = Inr (map (\<lambda>j. if j \<in> set order then Some (vs ! j) else slots ! j)
                           [0..<length vs])"
      using Cons.prems by (rule Cons.IH)
    also have "\<dots> = Inr (map (\<lambda>j. if j \<in> set (i # order) then Some (vs ! j) else slots ! j)
                           [0..<length vs])"
      using False by auto
    finally show ?thesis .
  qed
qed

lemma promise_all_fulfilled:
  assumes "{..<length vs} \<subseteq> set order"
  shows "promise_all (map Inr vs) order = Some (Inr vs)"
proof -
  have "settle (map Inr vs) order (replicate (length vs) None)
      = Inr (map (\<lambda>j. if j \<in> set order then Some (vs ! j) else replicate (length vs) None ! j)
               [0..<length vs])"
    by (rule settle_fulfilled) simp
  also have "map (\<lambda>j. if j \<in> set order then Some (vs ! j) else replicate (length vs) None ! j)
               [0..<length vs] = map (\<lambda>j. Some (vs ! j)) [0..<length vs]"
    using assms by auto
  also have "\<dots> = map Some (map ((!) vs) [0..<length vs])"
    by simp
  also have "\<dots> = map Some vs"
    by (simp only: map_nth)
  finally have "settle (map Inr vs) order (replicate (length vs) None) = Inr (map Some vs)" .
  then show ?thesis
    by (simp add: promise_all_def list_all_iff comp_def)
qed

lemma fetch_fulfilled:
  assumes "\<forall>m \<in> set ms. \<exists>d r. messages_get (gmail this) (ref_id m) = Inr d \<and> shape lc m d = Inr r"
  shows "map (fetch lc this) ms
     = map Inr (map (\<lambda>m. projr (shape lc m (projr (messages_get (gmail this) (ref_id m))))) ms)"
  using assms by (auto simp: fetch_def getMessage_def)

lemma shape_id: "shape lc m d = Inr r \<Longrightarrow> em_id r = ref_id m"
  by (auto simp: shape_def split: sum.splits)

text \<open>
  C3. When the list call succeeds and every per-id callback fulfils (its detail fetch
  succeeds and the fetched message can be shaped), \<open>searchEmails\<close> returns one shaped
  result per listed id, in the order of the list call: the k-th result is built from the
  k-th listed message and its own details. This holds for every order in which the fetches
  complete.
\<close>

theorem searchEmails_list_order:
  assumes "messages_list (gmail this) query (or_default maxResults) = Inr res"
    and "\<forall>m \<in> set (or_nil (list_messages res)).
          \<exists>d r. messages_get (gmail this) (ref_id m) = Inr d \<and> shape lc m d = Inr r"
    and "set order = {..<length (or_nil (list_messages res))}"
  shows "\<exists>r. fst (searchEmails lc this order query maxResults) = Some (Inr r)
    \<and> map em_id (sr_messages r) = map ref_id (or_nil (list_messages res))
    \<and> (\<forall>k < length (or_nil (list_messages res)).
          Inr (sr_messages r ! k)
            = shape lc (or_nil (list_messages res) ! k)
                (projr (messages_get (gmail this) (ref_id (or_nil (list_messages res) ! k)))))"
proof -
  let ?ms = "or_nil (list_messages res)"
  let ?vs = "map (\<lambda>m. projr (shape lc m (projr (messages_get (gmail this) (ref_id m))))) ?ms"
  have "{..<length ?vs} \<subseteq> set order"
    using assms(3) by simp
  then have "promise_all (map Inr ?vs) order = Some (Inr ?vs)"
    by (rule promise_all_fulfilled)
  then have "promise_all (map (fetch lc this) ?ms) order = Some (Inr ?vs)"
    by (simp only: fetch_fulfilled [OF assms(2)])
  then have "fst (searchEmails lc this order query maxResults)
      = Some (Inr \<lparr>sr_messages = ?vs, sr_resultSizeEstimate = list_resultSizeEstimate res,
                    sr_nextPageToken = list_nextPageToken res\<rparr>)"
    using assms(1) by (simp add: searchEmails_def Let_def)
  moreover have shaped: "Inr (?vs ! k)
      = shape lc (?ms ! k) (projr (messages_get (gmail this) (ref_id (?ms ! k))))"
    if "k < length ?ms" for k
  proof -
    from that have "?ms ! k \<in> set ?ms" by simp
    with assms(2) obtain d r where "messages_get (gmail this) (ref_id (?ms ! k)) = Inr d"
      and "shape lc (?ms ! k) d = Inr r"
      by blast
    with that show ?thesis by simp
  qed
  moreover have "map em_id ?vs = map ref_id ?ms"
  proof (rule nth_equalityI)
    show "length (map em_id ?vs) = length (map ref_id ?ms)" by simp
  next
    fix k assume "k < length (map em_id ?vs)"
    then have k: "k < length ?ms" by simp
    from shaped [OF k] have "em_id (?vs ! k) = ref_id (?ms ! k)"
      by (intro shape_id [of lc _ "projr (messages_get (gmail this) (ref_id (?ms ! k)))"]) simp
    with k show "map em_id ?vs ! k = map ref_id ?ms ! k" by simp
  qed
  ultimately show ?thesis by simp
qed

lemma shape_detail_of:
  "\<exists>r. shape ascii_lower m (detail_of i) = Inr r"
proof -
  have "\<exists>s. extractHeader ascii_lower (detail_of i) n = Inr s" for n
    by (simp add: extractHeader_def detail_of_def headers_of_def split: option.splits sum.splits)
  then show ?thesis
    by (auto simp: shape_def split: sum.splits) (metis sum.simps(4))+
qed

theorem searchEmails_list_order_witness:
  "messages_list (gmail client_expired) ''is:unread'' (or_default None)
     = Inr \<lparr>list_messages = Some listed, list_resultSizeEstimate = Some 3,
            list_nextPageToken = None\<rparr>
   \<and> set [2, 0, 1] = {..<length listed}
   \<and> (\<exists>r. fst (searchEmails ascii_lower client_expired [2, 0, 1] ''is:unread'' None)
            = Some (Inr r)
          \<and> map em_id (sr_messages r) = [''m3'', ''m1'', ''m2''])"
proof -
  let ?res = "\<lparr>list_messages = Some listed, list_resultSizeEstimate = Some 3,
               list_nextPageToken = None\<rparr>"
  have a: "messages_list (gmail client_expired) ''is:unread'' (or_default None) = Inr ?res"
    by (simp add: client_expired_def api_ok_def)
  have b: "\<forall>m \<in> set (or_nil (list_messages ?res)).
      \<exists>d r. messages_get (gmail client_expired) (ref_id m) = Inr d
        \<and> shape ascii_lower m d = Inr r"
    using shape_detail_of by (simp add: client_expired_def api_ok_def)
  have "length (or_nil (list_messages ?res)) = 3"
    by (simp add: listed_def)
  moreover have "set [2, 0, 1] = {..<(3::nat)}"
    by force
  ultimately have c: "set [2, 0, 1] = {..<length (or_nil (list_messages ?res))}"
    by (simp only:)
  have d: "map ref_id (or_nil (list_messages ?res)) = [''m3'', ''m1'', ''m2'']"
    by (simp add: listed_def)
  have e: "length listed = length (or_nil (list_messages ?res))"
    by simp
  from searchEmails_list_order [OF a b c] obtain r
    where "fst (searchEmails ascii_lower client_expired [2, 0, 1] ''is:unread'' None)
        = Some (Inr r)"
      and "map em_id (sr_messages r) = map ref_id (or_nil (list_messages ?res))"
    by blast
  with d have "\<exists>r. fst (searchEmails ascii_lower client_expired [2, 0, 1] ''is:unread'' None)
        = Some (Inr r)
      \<and> map em_id (sr_messages r) = [''m3'', ''m1'', ''m2'']"
    by (intro exI [of _ r]) simp
  with a c e show ?thesis
    by (simp only:)
qed

subsection \<open>Composing a plain message\<close>

lemma has_crlf_Cons: "c \<noteq> CR \<Longrightarrow> has_crlf (c # s) = has_crlf s"
  by (cases s) simp_all

lemma has_crlf_To: "has_crlf (''To: '' @ s) = has_crlf s"
  by (simp add: has_crlf_Cons CR_def)

lemma has_crlf_Subject: "has_crlf (''Subject: '' @ s) = has_crlf s"
  by (simp add: has_crlf_Cons CR_def)

lemma concat_split_crlf_single:
  "list_all (\<lambda>p. \<not> has_crlf p) hs \<Longrightarrow> concat (map split_crlf hs) = hs"
  by (induction hs) (simp_all add: split_crlf_single)

lemma split_crlf_headers_body:
  assumes "list_all (\<lambda>p. \<not> has_crlf p) hs"
  shows "split_crlf (join crlf (hs @ [b])) = hs @ split_crlf b"
proof -
  have "split_crlf (join crlf (hs @ [b])) = concat (map split_crlf (hs @ [b]))"
    by (rule split_crlf_join) simp
  also have "\<dots> = concat (map split_crlf hs) @ split_crlf b"
    by simp
  finally show ?thesis
    by (simp only: concat_split_crlf_single [OF assms])
qed

lemma no_crlf_content_type_plain: "\<not> has_crlf ''Content-Type: text/plain; charset=utf-8''"
  by (simp add: CR_def)

lemma sent_messages_send: "sent_messages [MessagesSend (base64url m)] = [Some m]"
  by (simp add: base64url_roundtrip)

lemma plain_email_lines:
  assumes "\<not> has_crlf (join '', '' to)" and "\<not> has_crlf subject"
    and "\<not> truthy_length cc" and "\<not> truthy_length bcc"
  shows "split_crlf (email to subject body cc bcc)
     = [''To: '' @ join '', '' to, ''Subject: '' @ subject,
        ''Content-Type: text/plain; charset=utf-8'', []] @ split_crlf body"
proof -
  let ?hs = "[''To: '' @ join '', '' to, ''Subject: '' @ subject,
      ''Content-Type: text/plain; charset=utf-8'', []]"
  have parts: "messageParts to subject body cc bcc = ?hs @ [body]"
    using assms(3,4) by (simp add: messageParts_def)
  have "list_all (\<lambda>p. \<not> has_crlf p) ?hs"
    using assms(1,2) no_crlf_content_type_plain
    by (simp only: list.pred_inject has_crlf_To has_crlf_Subject has_crlf.simps(3) simp_thms)
  then have "split_crlf (join crlf (?hs @ [body])) = ?hs @ split_crlf body"
    by (rule split_crlf_headers_body)
  then show ?thesis
    by (simp only: email_def parts)
qed

text \<open>
  C4. For a non-empty \<open>to\<close> list, a subject and a body, with no cc and no bcc (absent
  or empty), and with no CR LF line break inside the joined recipients or the subject, the
  message that \<open>sendEmail\<close> submits decodes to a header block of exactly three lines,
  \<open>To:\<close> with the recipients joined by a comma and a space, \<open>Subject:\<close> with the
  subject, and the content type, followed by an empty line; the body after that line is
  exactly the given body. A subject that carries a blank line of its own ends the header
  block early, as the counterexample shows.
\<close>

theorem plain_email_reads_back:
  assumes "to \<noteq> []" and "\<not> has_crlf (join '', '' to)" and "\<not> has_crlf subject"
    and "\<not> truthy_length cc" and "\<not> truthy_length bcc"
  shows "map (map_option header_lines) (sent_messages (snd (sendEmail this to subject body cc bcc)))
      = [Some [''To: '' @ join '', '' to, ''Subject: '' @ subject,
               ''Content-Type: text/plain; charset=utf-8'']]
    \<and> map (map_option body_text) (sent_messages (snd (sendEmail this to subject body cc bcc)))
      = [Some body]"
proof -
  let ?m = "email to subject body cc bcc"
  have sent: "sent_messages (snd (sendEmail this to subject body cc bcc)) = [Some ?m]"
    by (simp add: sendEmail_def Let_def base64url_roundtrip)
  have ls: "split_crlf ?m
     = [''To: '' @ join '', '' to, ''Subject: '' @ subject,
        ''Content-Type: text/plain; charset=utf-8'', []] @ split_crlf body"
    using assms(2-5) by (rule plain_email_lines)
  have "header_lines ?m = [''To: '' @ join '', '' to, ''Subject: '' @ subject,
      ''Content-Type: text/plain; charset=utf-8'']"
    by (simp add: header_lines_def ls)
  moreover have "body_text ?m = body"
    by (simp add: body_text_def body_lines_def ls join_split_crlf)
  ultimately show ?thesis
    by (simp add: sent)
qed


theorem plain_email_reads_back_witness:
  "[''a@x.com'', ''b@y.com''] \<noteq> [] \<and> \<not> has_crlf (join '', '' [''a@x.com'', ''b@y.com''])
   \<and> \<not> has_crlf ''Hi'' \<and> \<not> truthy_length None
   \<and> map (map_option header_lines)
        (sent_messages (snd (sendEmail client_ok [''a@x.com'', ''b@y.com''] ''Hi'' ''Hello'' None None)))
      = [Some [''To: a@x.com, b@y.com'', ''Subject: Hi'',
               ''Content-Type: text/plain; charset=utf-8'']]
   \<and> map (map_option body_text)
        (sent_messages (snd (sendEmail client_ok [''a@x.com'', ''b@y.com''] ''Hi'' ''Hello'' None None)))
      = [Some ''Hello'']"
proof -
  have h: "[''a@x.com'', ''b@y.com''] \<noteq> []"
    "\<not> has_crlf (join '', '' [''a@x.com'', ''b@y.com''])"
    "\<not> has_crlf ''Hi''" "\<not> truthy_length None" "\<not> truthy_length None"
    by (simp_all add: CR_def)
  have j: "''To: '' @ join '', '' [''a@x.com'', ''b@y.com''] = ''To: a@x.com, b@y.com''"
    "''Subject: '' @ ''Hi'' = ''Subject: Hi''"
    by simp_all
  from plain_email_reads_back [OF h, of client_ok "''Hello''"] h show ?thesis
    by (simp only: j simp_thms)
qed

lemma split_injected_subject:
  "split_crlf (''Subject: '' @ subject_with_blank_line) = [''Subject: Hi'', [], ''X'']"
  by (simp add: subject_with_blank_line_def crlf_def CR_def LF_def)

theorem subject_line_break_counterexample:
  "map (map_option header_lines)
     (sent_messages (snd (sendEmail client_ok [''a@x.com''] subject_with_blank_line ''Hello''
        None None)))
    = [Some [''To: a@x.com'', ''Subject: Hi'']]
   \<and> map (map_option body_text)
     (sent_messages (snd (sendEmail client_ok [''a@x.com''] subject_with_blank_line ''Hello''
        None None)))
    = [Some (''X'' @ crlf @ ''Content-Type: text/plain; charset=utf-8'' @ crlf @ crlf @ ''Hello'')]"
proof -
  let ?m = "email [''a@x.com''] subject_with_blank_line ''Hello'' None None"
  have sent: "sent_messages (snd (sendEmail client_ok [''a@x.com''] subject_with_blank_line
      ''Hello'' None None)) = [Some ?m]"
    by (simp add: sendEmail_def Let_def base64url_roundtrip)
  have parts: "messageParts [''a@x.com''] subject_with_blank_line ''Hello'' None None
      = [''To: a@x.com'', ''Subject: '' @ subject_with_blank_line,
         ''Content-Type: text/plain; charset=utf-8'', [], ''Hello'']"
    by (simp add: messageParts_def)
  have one: "split_crlf ''To: a@x.com'' = [''To: a@x.com'']"
    "split_crlf ''Content-Type: text/plain; charset=utf-8''
      = [''Content-Type: text/plain; charset=utf-8'']"
    "split_crlf ''Hello'' = [''Hello'']" "split_crlf [] = [[]]"
    by (simp_all add: split_crlf_single CR_def)
  have "split_crlf ?m
      = concat (map split_crlf [''To: a@x.com'', ''Subject: '' @ subject_with_blank_line,
         ''Content-Type: text/plain; charset=utf-8'', [], ''Hello''])"
    unfolding email_def parts by (rule split_crlf_join) simp
  also have "\<dots> = concat [[''To: a@x.com''], [''Subject: Hi'', [], ''X''],
         [''Content-Type: text/plain; charset=utf-8''], [[]], [''Hello'']]"
    by (simp only: list.map one split_injected_subject)
  also have "\<dots> = [''To: a@x.com'', ''Subject: Hi'', [], ''X'',
         ''Content-Type: text/plain; charset=utf-8'', [], ''Hello'']"
    by simp
  finally have ls: "split_crlf ?m = [''To: a@x.com'', ''Subject: Hi'', [], ''X'',
         ''Content-Type: text/plain; charset=utf-8'', [], ''Hello'']" .
  have "header_lines ?m = [''To: a@x.com'', ''Subject: Hi'']"
    by (simp add: header_lines_def ls)
  moreover have "body_text ?m
      = ''X'' @ crlf @ ''Content-Type: text/plain; charset=utf-8'' @ crlf @ crlf @ ''Hello''"
    by (simp add: body_text_def body_lines_def ls)
  ultimately show ?thesis
    by (simp only: sent list.map option.map)
qed

text \<open>
  C2. \<open>sendEmail\<close> has no check of the recipients. With an empty \<open>to\<close> list it composes
  a message whose first line is the header \<open>To: \<close> with no address, and submits it in
  one \<open>messages.send\<close> call, whose outcome is the outcome of the operation.
\<close>

theorem empty_recipients_are_submitted:
  "snd (sendEmail this [] subject body cc bcc)
      = [MessagesSend (base64url (email [] subject body cc bcc))]
   \<and> fst (sendEmail this [] subject body cc bcc)
      = messages_send (gmail this) (base64url (email [] subject body cc bcc))
   \<and> sent_messages (snd (sendEmail this [] subject body cc bcc))
      = [Some (email [] subject body cc bcc)]
   \<and> hd (split_crlf (email [] subject body cc bcc)) = ''To: ''"
proof -
  have "\<exists>rest. email [] subject body cc bcc = ''To: '' @ CR # LF # rest"
    by (simp add: email_def messageParts_def crlf_def)
  then obtain rest where "email [] subject body cc bcc = ''To: '' @ CR # LF # rest" ..
  then have "split_crlf (email [] subject body cc bcc) = split_crlf ''To: '' @ split_crlf rest"
    by (simp only: split_crlf_append)
  moreover have "split_crlf ''To: '' = [''To: '']"
    by (simp add: split_crlf_single CR_def)
  ultimately have "hd (split_crlf (email [] subject body cc bcc)) = ''To: ''"
    by simp
  then show ?thesis
    by (simp add: sendEmail_def Let_def base64url_roundtrip)
qed

theorem empty_recipients_counterexample:
  "fst (sendEmail client_ok [] ''Hi'' ''Hello'' None None) = Inr ''msg-1''
   \<and> sent_messages (snd (sendEmail client_ok [] ''Hi'' ''Hello'' None None))
      = [Some (''To: '' @ crlf @ ''Subject: Hi'' @ crlf
               @ ''Content-Type: text/plain; charset=utf-8'' @ crlf @ crlf @ ''Hello'')]"
  by (simp add: sendEmail_def Let_def base64url_roundtrip client_ok_def api_ok_def email_def
        messageParts_def)

subsection \<open>Composing a multipart message\<close>

lemma close_delimiter_starts_with:
  assumes "is_close_delimiter b l"
  shows "starts_with (''--'' @ b) l"
proof -
  from assms have "take (length (''--'' @ b @ ''--'')) l = ''--'' @ b @ ''--''"
    by (simp add: is_close_delimiter_def starts_with_def)
  then have "take (length (''--'' @ b)) (take (length (''--'' @ b @ ''--'')) l)
      = take (length (''--'' @ b)) (''--'' @ b @ ''--'')"
    by (simp only:)
  then show ?thesis
    by (simp add: starts_with_def min_def)
qed

lemma delimiter_starts_with: "is_delimiter b l \<Longrightarrow> starts_with (''--'' @ b) l"
  by (simp add: is_delimiter_def)

lemma collect_parts_skip:
  assumes "list_all (\<lambda>l. \<not> starts_with (''--'' @ b) l) xs"
  shows "collect_parts b part (xs @ ys) = collect_parts b (part @ xs) ys"
  using assms
proof (induction xs arbitrary: part)
  case Nil
  then show ?case by simp
next
  case (Cons x xs)
  then have "\<not> is_close_delimiter b x" "\<not> is_delimiter b x"
    using close_delimiter_starts_with delimiter_starts_with by auto
  with Cons show ?case by simp
qed

lemma delimiter_lines:
  "is_delimiter b (''--'' @ b)" "\<not> is_close_delimiter b (''--'' @ b)"
  "is_close_delimiter b (''--'' @ b @ ''--'')"
  by (simp_all add: is_delimiter_def is_close_delimiter_def starts_with_def padding_def)

lemma collect_two_parts:
  assumes "list_all (\<lambda>l. \<not> starts_with (''--'' @ b) l) p1"
    and "list_all (\<lambda>l. \<not> starts_with (''--'' @ b) l) p2"
  shows "collect_parts b [] (p1 @ (''--'' @ b) # p2 @ [''--'' @ b @ ''--'']) = Some [p1, p2]"
proof -
  have "collect_parts b [] (p1 @ (''--'' @ b) # p2 @ [''--'' @ b @ ''--''])
      = collect_parts b p1 ((''--'' @ b) # p2 @ [''--'' @ b @ ''--''])"
    using collect_parts_skip [OF assms(1), of "[]"] by simp
  also have "\<dots> = map_option ((#) p1) (collect_parts b [] (p2 @ [''--'' @ b @ ''--'']))"
    using delimiter_lines(1,2) [of b] by (simp del: append.simps)
  also have "collect_parts b [] (p2 @ [''--'' @ b @ ''--''])
      = collect_parts b p2 [''--'' @ b @ ''--'']"
    using collect_parts_skip [OF assms(2), of "[]"] by simp
  also have "\<dots> = Some [p2]"
    using delimiter_lines(3) [of b] by (simp del: append.simps)
  finally show ?thesis by simp
qed

lemma no_crlf_content_type_html: "\<not> has_crlf ''Content-Type: text/html; charset=utf-8''"
  by (simp add: CR_def)

lemma no_CR_no_crlf: "CR \<notin> set s \<Longrightarrow> \<not> has_crlf s"
  by (induction s rule: has_crlf.induct) auto

lemma digit_char_digit: "d < 10 \<Longrightarrow> digit_char d \<in> set ''0123456789''"
  unfolding digit_char_def by (rule nth_mem) simp


lemma digit_char_not_CR: "d < 10 \<Longrightarrow> digit_char d \<noteq> CR"
proof -
  assume "d < 10"
  then have "digit_char d \<in> set ''0123456789''"
    by (rule digit_char_digit)
  moreover have "CR \<notin> set ''0123456789''"
    by (simp add: CR_def)
  ultimately show ?thesis
    by metis
qed

lemma no_CR_string_of_nat: "CR \<notin> set (string_of_nat n)"
proof (induction n rule: string_of_nat.induct)
  case (1 n)
  show ?case
  proof (cases "n < 10")
    case True
    then have "string_of_nat n = [digit_char n]"
      by (subst string_of_nat.simps) simp
    with digit_char_not_CR [OF True] show ?thesis
      by simp
  next
    case False
    then have "string_of_nat n = string_of_nat (n div 10) @ [digit_char (n mod 10)]"
      by (subst string_of_nat.simps) simp
    moreover have "digit_char (n mod 10) \<noteq> CR"
      by (rule digit_char_not_CR) simp
    ultimately show ?thesis
      using 1 [OF False] by simp
  qed
qed

lemma no_CR_boundary: "CR \<notin> set (boundary_at t)"
proof -
  have "CR \<noteq> CHR ''-''" "CR \<notin> set ''boundary_''"
    by (simp_all add: CR_def)
  then show ?thesis
    by (simp add: boundary_at_def string_of_int_def no_CR_string_of_nat)
qed


lemma html_email_lines:
  assumes "\<not> has_crlf (join '', '' to)" and "\<not> has_crlf subject"
  shows "split_crlf (html_email t to subject htmlBody plainText)
     = [''To: '' @ join '', '' to,
        ''Subject: '' @ subject,
        ''Content-Type: multipart/alternative; boundary='' @ [CHR 0x22] @ boundary_at t @ [CHR 0x22],
        [],
        ''--'' @ boundary_at t,
        ''Content-Type: text/plain; charset=utf-8'',
        []]
       @ split_crlf (plain_or_default plainText)
       @ [[], ''--'' @ boundary_at t, ''Content-Type: text/html; charset=utf-8'', []]
       @ split_crlf htmlBody
       @ [[], ''--'' @ boundary_at t @ ''--'']"
proof -
  let ?b = "boundary_at t"
  have cr: "CR \<notin> set ?b"
    by (rule no_CR_boundary)
  have c: "CR \<notin> set (''Content-Type: multipart/alternative; boundary='' @ [CHR 0x22] @ ?b @ [CHR 0x22])"
    "CR \<notin> set (''--'' @ ?b)" "CR \<notin> set (''--'' @ ?b @ ''--'')"
    using cr by (simp_all add: CR_def)
  have n: "\<not> has_crlf (''Content-Type: multipart/alternative; boundary='' @ [CHR 0x22] @ ?b
        @ [CHR 0x22])"
    "\<not> has_crlf (''--'' @ ?b)" "\<not> has_crlf (''--'' @ ?b @ ''--'')"
    by (rule no_CR_no_crlf, rule c)+
  have m: "\<not> has_crlf (''To: '' @ join '', '' to)" "\<not> has_crlf (''Subject: '' @ subject)"
    using assms by (simp_all only: has_crlf_To has_crlf_Subject simp_thms)
  note single = split_crlf_single [OF m(1)] split_crlf_single [OF m(2)]
    split_crlf_single [OF n(1)] split_crlf_single [OF n(2)] split_crlf_single [OF n(3)]
    split_crlf_single [OF no_crlf_content_type_plain]
    split_crlf_single [OF no_crlf_content_type_html] split_crlf.simps(3)
  have "split_crlf (html_email t to subject htmlBody plainText)
      = concat (map split_crlf (htmlParts ?b to subject htmlBody plainText))"
    unfolding html_email_def by (rule split_crlf_join) (simp add: htmlParts_def)
  also have "\<dots> = concat
       [[''To: '' @ join '', '' to],
        [''Subject: '' @ subject],
        [''Content-Type: multipart/alternative; boundary='' @ [CHR 0x22] @ ?b @ [CHR 0x22]],
        [[]],
        [''--'' @ ?b],
        [''Content-Type: text/plain; charset=utf-8''],
        [[]],
        split_crlf (plain_or_default plainText),
        [[]],
        [''--'' @ ?b],
        [''Content-Type: text/html; charset=utf-8''],
        [[]],
        split_crlf htmlBody,
        [[]],
        [''--'' @ ?b @ ''--'']]"
    unfolding htmlParts_def by (simp only: list.map single)
  finally show ?thesis
    by (simp only: concat.simps append.simps append_assoc append_Nil2)
qed


lemma sent_html_messages:
  "sent_messages (snd (send_html_email api t to subject htmlBody plainText))
     = [Some (html_email t to subject htmlBody plainText)]"
  by (simp add: send_html_email_def Let_def base64url_roundtrip split: sum.splits)

text \<open>
  C9. For an HTML send whose joined recipients and subject contain no CR LF line break,
  and in which no line of the plain text (the given \<open>plainText\<close>, or the default text
  when it is absent or empty) and no line of \<open>htmlBody\<close> begins with \<open>--boundary\<close>,
  the submitted message decodes to one \<open>multipart/alternative\<close> container that names
  the generated boundary, and a recipient finds exactly two parts in it: the
  \<open>text/plain\<close> part first and the \<open>text/html\<close> part second, delimited by
  \<open>--boundary\<close> lines with that same boundary and closed by \<open>--boundary--\<close>. A plain
  text with a line made of the delimiter and a trailing space yields three parts, as the
  counterexample shows.
\<close>

theorem html_email_two_parts:
  assumes "\<not> has_crlf (join '', '' to)" and "\<not> has_crlf subject"
    and "list_all (\<lambda>l. \<not> starts_with (''--'' @ boundary_at t) l)
          (split_crlf (plain_or_default plainText))"
    and "list_all (\<lambda>l. \<not> starts_with (''--'' @ boundary_at t) l) (split_crlf htmlBody)"
  shows "map (map_option header_lines)
        (sent_messages (snd (send_html_email api t to subject htmlBody plainText)))
      = [Some [''To: '' @ join '', '' to, ''Subject: '' @ subject,
               ''Content-Type: multipart/alternative; boundary='' @ [CHR 0x22] @ boundary_at t
                 @ [CHR 0x22]]]
    \<and> map (map_option (message_parts (boundary_at t)))
        (sent_messages (snd (send_html_email api t to subject htmlBody plainText)))
      = [Some (Some
          [''Content-Type: text/plain; charset=utf-8'' # [] #
             split_crlf (plain_or_default plainText) @ [[]],
           ''Content-Type: text/html; charset=utf-8'' # [] # split_crlf htmlBody @ [[]]])]"
proof -
  let ?b = "boundary_at t"
  let ?m = "html_email t to subject htmlBody plainText"
  let ?p1 = "''Content-Type: text/plain; charset=utf-8'' # [] #
      split_crlf (plain_or_default plainText) @ [[]]"
  let ?p2 = "''Content-Type: text/html; charset=utf-8'' # [] # split_crlf htmlBody @ [[]]"
  have ls: "split_crlf ?m
     = [''To: '' @ join '', '' to, ''Subject: '' @ subject,
        ''Content-Type: multipart/alternative; boundary='' @ [CHR 0x22] @ ?b @ [CHR 0x22],
        [], ''--'' @ ?b] @ (?p1 @ (''--'' @ ?b) # ?p2 @ [''--'' @ ?b @ ''--''])"
    by (simp only: html_email_lines [OF assms(1,2)] append.simps append_assoc)
  have hd: "header_lines ?m
     = [''To: '' @ join '', '' to, ''Subject: '' @ subject,
        ''Content-Type: multipart/alternative; boundary='' @ [CHR 0x22] @ ?b @ [CHR 0x22]]"
    unfolding header_lines_def ls by simp
  have bl: "body_lines ?m = (''--'' @ ?b) # (?p1 @ (''--'' @ ?b) # ?p2 @ [''--'' @ ?b @ ''--''])"
    unfolding body_lines_def ls by simp
  have d1: "list_all (\<lambda>l. \<not> starts_with (''--'' @ ?b) l) ?p1"
    using assms(3) by (simp add: starts_with_def)
  have d2: "list_all (\<lambda>l. \<not> starts_with (''--'' @ ?b) l) ?p2"
    using assms(4) by (simp add: starts_with_def)
  have "mime_parts ?b (body_lines ?m)
      = collect_parts ?b [] (?p1 @ (''--'' @ ?b) # ?p2 @ [''--'' @ ?b @ ''--''])"
    unfolding bl mime_parts_def using delimiter_lines(1) [of ?b] by (simp del: append.simps)
  also have "\<dots> = Some [?p1, ?p2]"
    using d1 d2 by (rule collect_two_parts)
  finally have parts: "message_parts ?b ?m = Some [?p1, ?p2]"
    by (simp only: message_parts_def)
  show ?thesis
    by (simp only: sent_html_messages list.map option.map hd parts simp_thms)
qed

lemma boundary_examples:
  "boundary_at 5 = ''boundary_5''"
  "boundary_at 1700000000123 = ''boundary_1700000000123''"
  by (simp_all add: boundary_at_def string_of_int_def string_of_nat.simps digit_char_def)

theorem html_email_two_parts_witness:
  "\<not> has_crlf (join '', '' [''a@x.com'']) \<and> \<not> has_crlf ''Hi''
   \<and> list_all (\<lambda>l. \<not> starts_with (''--'' @ boundary_at 1700000000123) l)
        (split_crlf (plain_or_default (Some ''Hello'')))
   \<and> list_all (\<lambda>l. \<not> starts_with (''--'' @ boundary_at 1700000000123) l)
        (split_crlf ''<p>Hello</p>'')
   \<and> map (map_option header_lines)
        (sent_messages (snd (send_html_email api_ok 1700000000123 [''a@x.com''] ''Hi''
           ''<p>Hello</p>'' (Some ''Hello''))))
      = [Some [''To: a@x.com'', ''Subject: Hi'',
               ''Content-Type: multipart/alternative; boundary='' @ [CHR 0x22]
                 @ ''boundary_1700000000123'' @ [CHR 0x22]]]
   \<and> map (map_option (message_parts ''boundary_1700000000123''))
        (sent_messages (snd (send_html_email api_ok 1700000000123 [''a@x.com''] ''Hi''
           ''<p>Hello</p>'' (Some ''Hello''))))
      = [Some (Some
          [[''Content-Type: text/plain; charset=utf-8'', [], ''Hello'', []],
           [''Content-Type: text/html; charset=utf-8'', [], ''<p>Hello</p>'', []]])]"
proof -
  have s: "split_crlf (plain_or_default (Some ''Hello'')) = [''Hello'']"
    "split_crlf ''<p>Hello</p>'' = [''<p>Hello</p>'']"
    by (simp_all add: split_crlf_single CR_def)
  have h: "\<not> has_crlf (join '', '' [''a@x.com''])" "\<not> has_crlf ''Hi''"
    "list_all (\<lambda>l. \<not> starts_with (''--'' @ boundary_at 1700000000123) l)
        (split_crlf (plain_or_default (Some ''Hello'')))"
    "list_all (\<lambda>l. \<not> starts_with (''--'' @ boundary_at 1700000000123) l)
        (split_crlf ''<p>Hello</p>'')"
    unfolding s by (simp_all add: CR_def starts_with_def)
  have j: "''To: '' @ join '', '' [''a@x.com''] = ''To: a@x.com''"
    "''Subject: '' @ ''Hi'' = ''Subject: Hi''"
    "''Content-Type: text/plain; charset=utf-8'' # [] # [''Hello''] @ [[]]
      = [''Content-Type: text/plain; charset=utf-8'', [], ''Hello'', []]"
    "''Content-Type: text/html; charset=utf-8'' # [] # [''<p>Hello</p>''] @ [[]]
      = [''Content-Type: text/html; charset=utf-8'', [], ''<p>Hello</p>'', []]"
    by simp_all
  have c: "map (map_option header_lines)
        (sent_messages (snd (send_html_email api_ok 1700000000123 [''a@x.com''] ''Hi''
           ''<p>Hello</p>'' (Some ''Hello''))))
      = [Some [''To: a@x.com'', ''Subject: Hi'',
               ''Content-Type: multipart/alternative; boundary='' @ [CHR 0x22]
                 @ ''boundary_1700000000123'' @ [CHR 0x22]]]
   \<and> map (map_option (message_parts ''boundary_1700000000123''))
        (sent_messages (snd (send_html_email api_ok 1700000000123 [''a@x.com''] ''Hi''
           ''<p>Hello</p>'' (Some ''Hello''))))
      = [Some (Some
          [[''Content-Type: text/plain; charset=utf-8'', [], ''Hello'', []],
           [''Content-Type: text/html; charset=utf-8'', [], ''<p>Hello</p>'', []]])]"
    using html_email_two_parts [OF h, of api_ok]
    unfolding s boundary_examples j .
  from h c show ?thesis
    by (simp only: simp_thms)
qed

lemma split_plain_with_delimiter:
  "split_crlf (plain_or_default (Some plain_with_delimiter)) = [''a'', ''--boundary_5 '', ''b'']"
  by (simp add: plain_with_delimiter_def crlf_def CR_def LF_def)

theorem boundary_in_plain_text_counterexample:
  "map (map_option (message_parts (boundary_at 5)))
     (sent_messages (snd (send_html_email api_ok 5 [''a@x.com''] ''Hi'' ''<p>Hello</p>''
        (Some plain_with_delimiter))))
    = [Some (Some
        [[''Content-Type: text/plain; charset=utf-8'', [], ''a''],
         [''b'', []],
         [''Content-Type: text/html; charset=utf-8'', [], ''<p>Hello</p>'', []]])]"
proof -
  let ?m = "html_email 5 [''a@x.com''] ''Hi'' ''<p>Hello</p>'' (Some plain_with_delimiter)"
  have h: "\<not> has_crlf (join '', '' [''a@x.com''])" "\<not> has_crlf ''Hi''"
    by (simp_all add: CR_def)
  have s: "split_crlf ''<p>Hello</p>'' = [''<p>Hello</p>'']"
    by (simp add: split_crlf_single CR_def)
  have ls: "split_crlf ?m
     = [''To: '' @ join '', '' [''a@x.com''], ''Subject: '' @ ''Hi'',
        ''Content-Type: multipart/alternative; boundary='' @ [CHR 0x22] @ ''boundary_5''
          @ [CHR 0x22],
        [], ''--'' @ ''boundary_5'', ''Content-Type: text/plain; charset=utf-8'', []]
       @ [''a'', ''--boundary_5 '', ''b'']
       @ [[], ''--'' @ ''boundary_5'', ''Content-Type: text/html; charset=utf-8'', []]
       @ [''<p>Hello</p>'']
       @ [[], ''--'' @ ''boundary_5'' @ ''--'']"
    using html_email_lines [OF h, of 5 "''<p>Hello</p>''" "Some plain_with_delimiter"]
    unfolding split_plain_with_delimiter s boundary_examples .
  have "body_lines ?m
     = [''--boundary_5'', ''Content-Type: text/plain; charset=utf-8'', [], ''a'',
        ''--boundary_5 '', ''b'', [], ''--boundary_5'',
        ''Content-Type: text/html; charset=utf-8'', [], ''<p>Hello</p>'', [],
        ''--boundary_5--'']"
    unfolding body_lines_def ls by simp
  then have "message_parts ''boundary_5'' ?m
     = Some [[''Content-Type: text/plain; charset=utf-8'', [], ''a''],
         [''b'', []],
         [''Content-Type: text/html; charset=utf-8'', [], ''<p>Hello</p>'', []]]"
    by (simp add: message_parts_def mime_parts_def is_delimiter_def is_close_delimiter_def
          starts_with_def padding_def)
  then show ?thesis
    by (simp only: sent_html_messages boundary_examples list.map option.map)
qed

section \<open>The tool boundary and the refresh guard around the operations\<close>

text \<open>
  The handler of \<open>send_email\<close> never rejects: its own \<open>catch\<close> turns a fault into an
  error payload. The handlers of \<open>manage_labels\<close> and \<open>send_html_email\<close> have no
  \<open>try\<close> and reject when the mail API does.
\<close>

lemma send_email_never_throws:
  "\<exists>r. fst (send_email gmailClient to subject body cc bcc) = Inr r"
  by (simp add: send_email_def split: prod.splits sum.splits)

lemma manage_labels_rejects:
  "fst (manage_labels api_not_found ''m1'' (Some [''STARRED'']) None)
     = Inl (Fault ''Requested entity was not found.'')"
  by (simp add: manage_labels_def api_not_found_def)

lemma send_html_email_rejects:
  "fst (send_html_email api_not_found 5 [''a@x.com''] ''Hi'' ''<p>Hello</p>'' None)
     = Inl (Fault ''Requested entity was not found.'')"
  by (simp add: send_html_email_def api_not_found_def Let_def)









end
